theory Spec2Isabelle
  imports Complex_Main
begin

section \<open>Data model of server.go\<close>

text \<open>
  The struct \<^verbatim>\<open>Location\<close>. The two \<^verbatim>\<open>float64\<close> fields are only decoded, stored and
  encoded again, never computed with; a JSON number always decodes to a finite float, which
  is represented here by its value.
\<close>

record Location =
  Phone :: string
  Token :: string
  Lat :: real
  Lon :: real
  IP :: string
  When :: string

text \<open>
  A Go slice of locations: \<open>None\<close> is the \<^verbatim>\<open>nil\<close> slice, \<open>Some xs\<close> a non-nil slice with
  the elements \<open>xs\<close>. Both have a length; only the JSON encoder tells them apart.
\<close>

type_synonym slice = "Location list option"

fun elems :: "slice \<Rightarrow> Location list" where
  "elems None = []"
| "elems (Some xs) = xs"

definition len :: "slice \<Rightarrow> nat" where
  "len s = length (elems s)"

text \<open>\<^verbatim>\<open>append(s, x)\<close>: the result is never nil.\<close>

definition append_go :: "slice \<Rightarrow> Location \<Rightarrow> slice" where
  "append_go s x = Some (elems s @ [x])"

text \<open>
  \<^verbatim>\<open>s[low:]\<close>. The only call site is guarded by \<^verbatim>\<open>len(s) > 200\<close> and passes
  \<^verbatim>\<open>len(s)-200\<close>, so \<open>low\<close> is within \<open>0..len s\<close> there and the expression cannot panic.
\<close>

fun slice_from :: "slice \<Rightarrow> nat \<Rightarrow> slice" where
  "slice_from None low = None"
| "slice_from (Some xs) low = Some (drop low xs)"

text \<open>
  The global \<^verbatim>\<open>store = map[string][]Location{}\<close>. The program reads it only through
  \<^verbatim>\<open>store[key]\<close>, which yields the nil slice for a key that is not there, so the map
  is the function from keys to slices that is nil outside its keys.
\<close>

type_synonym history = "string \<Rightarrow> slice"

text \<open>A \<^verbatim>\<open>*websocket.Conn\<close> is identified by its address.\<close>

type_synonym conn = nat

text \<open>
  The process state: the two globals \<^verbatim>\<open>store\<close> and \<^verbatim>\<open>clients\<close>, and for every connection
  the messages \<^verbatim>\<open>WriteJSON\<close> has written to it so far (\<open>wire\<close>) and whether \<^verbatim>\<open>Close\<close>
  was called on it.
\<close>

record server =
  store :: history
  clients :: "conn \<rightharpoonup> bool"
  wire :: "conn \<Rightarrow> Location list"
  closed :: "conn set"

definition init :: server where
  "init = \<lparr>store = (\<lambda>k. None), clients = (\<lambda>c. None), wire = (\<lambda>c. []), closed = {}\<rparr>"

section \<open>The history store\<close>

text \<open>
  The critical section of \<^verbatim>\<open>reportHandler\<close> under \<^verbatim>\<open>stMutex.Lock()\<close>:
  \<^verbatim>\<open>
  store[loc.Phone] = append(store[loc.Phone], loc)
  if len(store[loc.Phone]) > 200 {
      store[loc.Phone] = store[loc.Phone][len(store[loc.Phone])-200:]
  }
  \<close>
\<close>

definition storeAppend :: "Location \<Rightarrow> history \<Rightarrow> history" where
  "storeAppend loc st =
     (let st1 = st(Phone loc := append_go (st (Phone loc)) loc)
      in if len (st1 (Phone loc)) > 200
         then st1(Phone loc := slice_from (st1 (Phone loc)) (len (st1 (Phone loc)) - 200))
         else st1)"

text \<open>A sequence of appends, each one a whole critical section, in the order they run.\<close>

fun appends :: "history \<Rightarrow> Location list \<Rightarrow> history" where
  "appends st [] = st"
| "appends st (l # ls) = appends (storeAppend l st) ls"

section \<open>The subscriber set and broadcast\<close>

text \<open>
  \<^verbatim>\<open>for c := range clients\<close> visits the keys of the map in an order the runtime chooses;
  \<open>range_order cs m\<close> says that \<open>cs\<close> is such an order for the map \<open>m\<close>: every key once.
\<close>

definition range_order :: "conn list \<Rightarrow> (conn \<rightharpoonup> bool) \<Rightarrow> bool" where
  "range_order cs m = (distinct cs \<and> set cs = dom m)"

text \<open>
  The loop of \<^verbatim>\<open>broadcast\<close> over the keys \<open>cs\<close> still to be visited. \<open>werr\<close> is the set of
  connections on which \<^verbatim>\<open>WriteJSON\<close> returns an error during this call (decided by the
  peer and the network, not by the program):
  \<^verbatim>\<open>
  for c := range clients {
      if err := c.WriteJSON(loc); err != nil {
          log.Println("ws write err:", err)
          c.Close()
          delete(clients, c)
      }
  }
  \<close>
  A key deleted before the loop reaches it is not produced; the loop itself deletes only
  the key it is at.
\<close>

fun broadcast_loop :: "conn set \<Rightarrow> Location \<Rightarrow> conn list \<Rightarrow> server \<Rightarrow> server" where
  "broadcast_loop werr loc [] s = s"
| "broadcast_loop werr loc (c # cs) s =
     broadcast_loop werr loc cs
       (if clients s c = None then s
        else if c \<in> werr
          then s\<lparr>clients := (clients s)(c := None), closed := insert c (closed s)\<rparr>
          else s\<lparr>wire := (wire s)(c := wire s c @ [loc])\<rparr>)"

text \<open>\<^verbatim>\<open>broadcast(loc)\<close>, the whole of it under \<^verbatim>\<open>clientsMu\<close>.\<close>

definition broadcast :: "conn list \<Rightarrow> conn set \<Rightarrow> Location \<Rightarrow> server \<Rightarrow> server" where
  "broadcast cs werr loc s = broadcast_loop werr loc cs s"

text \<open>
  \<^verbatim>\<open>wsHandler\<close> after a successful upgrade registers the new connection
  (\<^verbatim>\<open>clients[conn] = true\<close>); when \<^verbatim>\<open>ReadJSON\<close> fails it deletes the connection from the
  set and leaves the loop, and the deferred \<^verbatim>\<open>conn.Close()\<close> runs. A failed upgrade returns
  before touching anything.
\<close>

definition wsRegister :: "conn \<Rightarrow> server \<Rightarrow> server" where
  "wsRegister c s = s\<lparr>clients := (clients s)(c \<mapsto> True)\<rparr>"

definition wsDrop :: "conn \<Rightarrow> server \<Rightarrow> server" where
  "wsDrop c s = s\<lparr>clients := (clients s)(c := None), closed := insert c (closed s)\<rparr>"

text \<open>
  Every access to \<^verbatim>\<open>clients\<close> is made under \<^verbatim>\<open>clientsMu\<close>, so what happens to the
  subscriber set and to the connections is a sequence of these critical sections.
\<close>

datatype event =
  Publish "conn list" "conn set" Location
| Connect conn
| Disconnect conn

fun step :: "event \<Rightarrow> server \<Rightarrow> server" where
  "step (Publish cs werr loc) s = broadcast cs werr loc s"
| "step (Connect c) s = wsRegister c s"
| "step (Disconnect c) s = wsDrop c s"

fun run :: "server \<Rightarrow> event list \<Rightarrow> server" where
  "run s [] = s"
| "run s (ev # evs) = run (step ev s) evs"

text \<open>Every \<^verbatim>\<open>range\<close> of the run visits the keys the map has at that moment.\<close>

fun ranges_ok :: "server \<Rightarrow> event list \<Rightarrow> bool" where
  "ranges_ok s [] = True"
| "ranges_ok s (Publish cs werr loc # evs) =
     (range_order cs (clients s) \<and> ranges_ok (step (Publish cs werr loc) s) evs)"
| "ranges_ok s (ev # evs) = ranges_ok (step ev s) evs"

text \<open>
  The subscriber \<open>c\<close> stays connected through an event: no write to it fails and its own
  read loop does not end.
\<close>

fun stays :: "conn \<Rightarrow> event \<Rightarrow> bool" where
  "stays c (Publish cs werr loc) = (c \<notin> werr)"
| "stays c (Connect d) = True"
| "stays c (Disconnect d) = (d \<noteq> c)"

text \<open>The samples published in a run, in the order of the calls.\<close>

fun published :: "event list \<Rightarrow> Location list" where
  "published [] = []"
| "published (Publish cs werr loc # evs) = loc # published evs"
| "published (ev # evs) = published evs"

section \<open>The HTTP handlers\<close>

text \<open>What \<^verbatim>\<open>encoding/json\<close> writes, as a value.\<close>

datatype json =
  JNull
| JStr string
| JNum real
| JArr "json list"
| JObj "(string \<times> json) list"

text \<open>
  A \<^verbatim>\<open>Location\<close> encodes as an object with its fields in declaration order;
  \<^verbatim>\<open>token\<close> and \<^verbatim>\<open>ip\<close> are tagged \<^verbatim>\<open>omitempty\<close>.
\<close>

definition encodeLocation :: "Location \<Rightarrow> json" where
  "encodeLocation l = JObj
     ([(''phone'', JStr (Phone l))]
      @ (if Token l = [] then [] else [(''token'', JStr (Token l))])
      @ [(''lat'', JNum (Lat l)), (''lon'', JNum (Lon l))]
      @ (if IP l = [] then [] else [(''ip'', JStr (IP l))])
      @ [(''when'', JStr (When l))])"

text \<open>A nil slice encodes as \<^verbatim>\<open>null\<close>, any other slice as an array.\<close>

fun encodeSlice :: "slice \<Rightarrow> json" where
  "encodeSlice None = JNull"
| "encodeSlice (Some xs) = JArr (map encodeLocation xs)"

datatype payload = Text string | Json json

record response =
  code :: nat
  content :: payload

text \<open>
  The request as the handler reads it: \<open>Body\<close> is what
  \<^verbatim>\<open>json.NewDecoder(r.Body).Decode(&loc)\<close> makes of the body, \<open>None\<close> when it returns an
  error and otherwise the decoded struct (a field the body does not give keeps its zero
  value, the empty string or 0); \<open>Date\<close> is \<^verbatim>\<open>r.Header.Get("Date")\<close>, empty when the
  header is absent.
\<close>

record request =
  Body :: "Location option"
  Date :: string

text \<open>
  What the handler takes from outside the program while it serves one request: the clock
  (\<^verbatim>\<open>nowISO()\<close>), the order of the \<^verbatim>\<open>range\<close> in \<^verbatim>\<open>broadcast\<close> and the connections
  whose write fails.
\<close>

record env =
  now :: string
  order :: "conn list"
  werr :: "conn set"

text \<open>
  \<^verbatim>\<open>
  func reportHandler(w http.ResponseWriter, r *http.Request) {
      var loc Location
      if err := json.NewDecoder(r.Body).Decode(&loc); err != nil {
          http.Error(w, "invalid json", http.StatusBadRequest)
          return
      }
      loc.When = fmt.Sprintf("%s", r.Header.Get("Date"))
      if loc.When == "" {
          loc.When = fmt.Sprintf("%v", nowISO())
      }
      ... store ...
      broadcast(loc)
      w.WriteHeader(http.StatusOK)
      json.NewEncoder(w).Encode(map[string]string{"status": "ok"})
  }
  \<close>
  \<^verbatim>\<open>http.Error\<close> writes the message and a newline. The handler is one goroutine: its
  two critical sections run one after the other, and the function below is the handler
  with nothing else running between them.
\<close>

definition reportHandler :: "env \<Rightarrow> request \<Rightarrow> server \<Rightarrow> response \<times> server" where
  "reportHandler e r s =
     (case Body r of
        None \<Rightarrow> (\<lparr>code = 400, content = Text (''invalid json'' @ [CHR 0x0A])\<rparr>, s)
      | Some loc0 \<Rightarrow>
          (let loc1 = loc0\<lparr>When := Date r\<rparr>;
               loc = (if When loc1 = [] then loc1\<lparr>When := now e\<rparr> else loc1);
               s1 = s\<lparr>store := storeAppend loc (store s)\<rparr>;
               s2 = broadcast (order e) (werr e) loc s1
           in (\<lparr>code = 200, content = Json (JObj [(''status'', JStr ''ok'')])\<rparr>, s2)))"

text \<open>
  \<^verbatim>\<open>
  func getHandler(w http.ResponseWriter, r *http.Request) {
      phone := mux.Vars(r)["phone"]
      stMutex.RLock()
      locs := store[phone]
      stMutex.RUnlock()
      w.Header().Set("Content-Type", "application/json")
      json.NewEncoder(w).Encode(map[string]interface{}{"phone": phone, "locations": locs})
  }
  \<close>
  The handler changes nothing. The encoder writes the keys of a map in sorted order.
\<close>

definition getHandler :: "string \<Rightarrow> server \<Rightarrow> response" where
  "getHandler phone s =
     (let locs = store s phone
      in \<lparr>code = 200,
          content = Json (JObj [(''locations'', encodeSlice locs), (''phone'', JStr phone)])\<rparr>)"

section \<open>The body of a report and the decoder\<close>

text \<open>
  \<^verbatim>\<open>json.NewDecoder(r.Body).Decode(&loc)\<close> skips white space, reads the text of one JSON
  value from the front of the body and stops there: the bytes that follow the value are
  never examined. It returns an error when the body does not begin with a complete JSON
  value (a syntax error, or the end of the input), and when the value is not one that a
  \<^verbatim>\<open>Location\<close> can take (an array, a number for \<^verbatim>\<open>phone\<close>, ...). The body of a request is
  therefore one of:
  \<^item> \<open>NoValue\<close>: it does not begin with a complete JSON value;
  \<^item> \<open>Misfit rest\<close>: it begins with a JSON value that does not fit a \<^verbatim>\<open>Location\<close>, and
    \<open>rest\<close> are the bytes after that value;
  \<^item> \<open>Fits l rest\<close>: it begins with a JSON value that decodes to the struct \<open>l\<close>, and
    \<open>rest\<close> are the bytes after that value.
\<close>

datatype body =
  NoValue
| Misfit string
| Fits Location string

fun Decode :: "body \<Rightarrow> Location option" where
  "Decode NoValue = None"
| "Decode (Misfit rest) = None"
| "Decode (Fits l rest) = Some l"

text \<open>The white space of JSON: space, tab, carriage return, line feed.\<close>

definition isSpace :: "char \<Rightarrow> bool" where
  "isSpace c = (c = CHR '' '' \<or> c = CHR 0x09 \<or> c = CHR 0x0D \<or> c = CHR 0x0A)"

text \<open>
  The body as a whole parses, as a JSON text: it is one JSON value, with nothing but white
  space after it.
\<close>

fun parses :: "body \<Rightarrow> bool" where
  "parses NoValue = False"
| "parses (Misfit rest) = list_all isSpace rest"
| "parses (Fits l rest) = list_all isSpace rest"

section \<open>Broadcast with a write that does not return\<close>

text \<open>
  \<^verbatim>\<open>c.WriteJSON(loc)\<close> is called inside the range, under \<^verbatim>\<open>clientsMu\<close>, and the program
  sets no write deadline: besides returning nil or an error, the write to a peer that has
  stopped reading may not return. \<open>stalled\<close> is the set of connections on which it does
  not; \<open>failing\<close> is the set on which it returns an error. The call of \<^verbatim>\<open>broadcast\<close>
  then either returns, or stays blocked in that write, holding the lock, in the state it
  had reached.
\<close>

datatype progress =
  Returned server
| Blocked server

fun broadcast_blocking_loop ::
  "conn set \<Rightarrow> conn set \<Rightarrow> Location \<Rightarrow> conn list \<Rightarrow> server \<Rightarrow> progress" where
  "broadcast_blocking_loop failing stalled loc [] s = Returned s"
| "broadcast_blocking_loop failing stalled loc (c # cs) s =
     (if clients s c = None then broadcast_blocking_loop failing stalled loc cs s
      else if c \<in> stalled then Blocked s
      else if c \<in> failing
        then broadcast_blocking_loop failing stalled loc cs
               (s\<lparr>clients := (clients s)(c := None), closed := insert c (closed s)\<rparr>)
        else broadcast_blocking_loop failing stalled loc cs
               (s\<lparr>wire := (wire s)(c := wire s c @ [loc])\<rparr>))"

definition broadcast_blocking ::
  "conn list \<Rightarrow> conn set \<Rightarrow> conn set \<Rightarrow> Location \<Rightarrow> server \<Rightarrow> progress" where
  "broadcast_blocking cs failing stalled loc s = broadcast_blocking_loop failing stalled loc cs s"

section \<open>Concrete inputs\<close>

definition sample :: "string \<Rightarrow> nat \<Rightarrow> Location" where
  "sample p i = \<lparr>Phone = p, Token = [], Lat = real i, Lon = 20, IP = [], When = ''t''\<rparr>"

definition clock :: string where
  "clock = ''2026-11-01T00:00:00Z''"

definition anon :: Location where
  "anon = \<lparr>Phone = [], Token = [], Lat = 1, Lon = 1, IP = [], When = []\<rparr>"

definition far :: Location where
  "far = \<lparr>Phone = ''A'', Token = [], Lat = 91, Lon = 181, IP = [], When = []\<rparr>"

definition dated :: Location where
  "dated = \<lparr>Phone = ''A'', Token = [], Lat = 10, Lon = 20, IP = [], When = ''t1''\<rparr>"

lemmas run_defs = reportHandler_def Let_def broadcast_def storeAppend_def append_go_def len_def
  wsRegister_def wsDrop_def init_def range_order_def

section \<open>Facts about the store\<close>

lemma storeAppend_same:
  "storeAppend l st (Phone l) =
     Some (drop (Suc (length (elems (st (Phone l)))) - 200) (elems (st (Phone l)) @ [l]))"
  by (simp add: storeAppend_def Let_def len_def append_go_def)

lemma storeAppend_other:
  "q \<noteq> Phone l \<Longrightarrow> storeAppend l st q = st q"
  by (simp add: storeAppend_def Let_def)

lemma storeAppend_eq:
  "storeAppend l st =
     st(Phone l := Some (drop (Suc (length (elems (st (Phone l)))) - 200) (elems (st (Phone l)) @ [l])))"
  by (rule ext) (simp add: storeAppend_same storeAppend_other)

lemma storeAppend_last:
  "last (elems (storeAppend l st (Phone l))) = l"
  by (simp add: storeAppend_same last_drop)

text \<open>Trimming to the last \<open>n\<close> and then appending loses nothing the last \<open>n\<close> need.\<close>

lemma drop_last_window:
  "drop (length (drop (length xs - n) xs @ ys) - n) (drop (length xs - n) xs @ ys)
     = drop (length (xs @ ys) - n) (xs @ ys)"
  by (cases "length xs \<le> n") (auto simp: not_le add.commute)

lemma appends_same:
  "\<forall>l\<in>set ls. Phone l = p \<Longrightarrow> ls \<noteq> [] \<Longrightarrow>
     appends st ls p = Some (drop (length (elems (st p) @ ls) - 200) (elems (st p) @ ls))"
proof (induction ls arbitrary: st)
  case Nil
  then show ?case by simp
next
  case (Cons l ls)
  have p: "Phone l = p" using Cons.prems by simp
  show ?case
  proof (cases "ls = []")
    case True
    then show ?thesis using storeAppend_same [of l st] p by simp
  next
    case False
    have "appends (storeAppend l st) ls p =
        Some (drop (length (elems (storeAppend l st p) @ ls) - 200) (elems (storeAppend l st p) @ ls))"
      using Cons.IH [of "storeAppend l st"] Cons.prems False by simp
    also have "elems (storeAppend l st p) = drop (length (elems (st p) @ [l]) - 200) (elems (st p) @ [l])"
      using storeAppend_same [of l st] p by simp
    finally show ?thesis
      using drop_last_window [of "elems (st p) @ [l]" 200 ls] by simp
  qed
qed

lemma appends_other:
  "\<forall>l\<in>set ls. Phone l \<noteq> q \<Longrightarrow> appends st ls q = st q"
  by (induction ls arbitrary: st) (auto simp: storeAppend_other)

section \<open>Facts about broadcast\<close>

lemma broadcast_loop_store:
  "store (broadcast_loop w l cs s) = store s"
  by (induction cs arbitrary: s) auto

lemma broadcast_loop_clients:
  "clients (broadcast_loop w l cs s) c = (if c \<in> set cs \<and> c \<in> w then None else clients s c)"
  by (induction cs arbitrary: s) auto

lemma broadcast_loop_wire:
  "distinct cs \<Longrightarrow>
   wire (broadcast_loop w l cs s) c =
     (if c \<in> set cs \<and> clients s c \<noteq> None \<and> c \<notin> w then wire s c @ [l] else wire s c)"
  by (induction cs arbitrary: s) auto

lemma broadcast_loop_closed:
  "closed (broadcast_loop w l cs s) = closed s \<union> {c \<in> set cs. clients s c \<noteq> None \<and> c \<in> w}"
  by (induction cs arbitrary: s) auto

lemma broadcast_store: "store (broadcast cs w l s) = store s"
  by (simp add: broadcast_def broadcast_loop_store)

lemma broadcast_delivers:
  assumes "range_order cs (clients s)" and "clients s c \<noteq> None" and "c \<notin> w"
  shows "wire (broadcast cs w l s) c = wire s c @ [l]"
  using assms by (auto simp: broadcast_def range_order_def broadcast_loop_wire)

lemma step_keeps_subscriber:
  assumes "clients s c \<noteq> None" and "stays c ev"
  shows "clients (step ev s) c \<noteq> None"
  using assms
  by (cases ev) (auto simp: broadcast_def broadcast_loop_clients wsRegister_def wsDrop_def)

lemma step_wire:
  assumes "clients s c \<noteq> None" and "stays c ev" and "ranges_ok s [ev]"
  shows "wire (step ev s) c = wire s c @ published [ev]"
  using assms
  by (cases ev)
     (auto simp: broadcast_def broadcast_loop_wire range_order_def wsRegister_def wsDrop_def)

text \<open>Without a stalled connection the loop is \<open>broadcast_loop\<close>; with one, it stops there.\<close>

lemma blocking_loop_none_stalled:
  "set cs \<inter> stalled = {} \<Longrightarrow>
     broadcast_blocking_loop w stalled l cs s = Returned (broadcast_loop w l cs s)"
  by (induction cs arbitrary: s) auto

lemma blocking_loop_first_stalled:
  assumes "distinct (pre @ c # post)" and "set pre \<inter> stalled = {}" and "c \<in> stalled"
    and "clients s c \<noteq> None"
  shows "broadcast_blocking_loop w stalled l (pre @ c # post) s = Blocked (broadcast_loop w l pre s)"
  using assms
  by (induction pre arbitrary: s) auto

section \<open>Facts about the report handler\<close>

lemma report_accepts:
  assumes "Body r = Some l0"
  shows "reportHandler e r s =
     (\<lparr>code = 200, content = Json (JObj [(''status'', JStr ''ok'')])\<rparr>,
      broadcast (order e) (werr e) (l0\<lparr>When := (if Date r = [] then now e else Date r)\<rparr>)
        (s\<lparr>store := storeAppend (l0\<lparr>When := (if Date r = [] then now e else Date r)\<rparr>) (store s)\<rparr>))"
  using assms by (simp add: reportHandler_def Let_def)

section \<open>The claims about the history store\<close>

text \<open>
  C1. For every identity and every sequence of N appends to that identity with N > 200,
  whatever the store held before, a following Get for that identity returns exactly the
  last 200 appended samples in arrival order: the store holds them as a slice of length
  200, and \<^verbatim>\<open>getHandler\<close> answers 200 with them as the \<^verbatim>\<open>locations\<close> array.
\<close>

theorem get_returns_last_200:
  assumes "200 < length ls" and "\<forall>l\<in>set ls. Phone l = p"
  shows "appends (store s) ls p = Some (drop (length ls - 200) ls)
       \<and> length (drop (length ls - 200) ls) = 200
       \<and> getHandler p (s\<lparr>store := appends (store s) ls\<rparr>) =
           \<lparr>code = 200,
            content = Json (JObj [(''locations'', JArr (map encodeLocation (drop (length ls - 200) ls))),
                                  (''phone'', JStr p)])\<rparr>"
proof -
  have ne: "ls \<noteq> []" using assms(1) by auto
  have "appends (store s) ls p =
      Some (drop (length (elems (store s p) @ ls) - 200) (elems (store s p) @ ls))"
    using appends_same [OF assms(2) ne] .
  then have a: "appends (store s) ls p = Some (drop (length ls - 200) ls)"
    using assms(1) by simp
  have b: "length (drop (length ls - 200) ls) = 200"
    using assms(1) by simp
  show ?thesis using a b by (simp add: getHandler_def)
qed

text \<open>201 appends to \<open>A\<close>, numbered 0 to 200: the first one is gone, the rest are kept in order.\<close>

theorem get_returns_last_200_witness:
  "appends (store init) (map (sample ''A'') [0..<201]) ''A'' = Some (map (sample ''A'') [1..<201])"
  using get_returns_last_200 [of "map (sample ''A'') [0..<201]" "''A''" init]
  by (simp add: sample_def drop_map)

text \<open>
  C8, as the code has it. For every identity that no append since the start of the server
  was made to, Get finds the nil slice, of length 0, and \<^verbatim>\<open>getHandler\<close> answers with status
  200, never an error; the \<^verbatim>\<open>locations\<close> field of the answer is \<^verbatim>\<open>null\<close>, which is how the
  encoder writes a nil slice, and not an empty list.
\<close>

theorem unknown_identity_yields_null:
  assumes "\<forall>l\<in>set ls. Phone l \<noteq> p"
  shows "len (appends (store init) ls p) = 0
       \<and> getHandler p (s\<lparr>store := appends (store init) ls\<rparr>) =
           \<lparr>code = 200, content = Json (JObj [(''locations'', JNull), (''phone'', JStr p)])\<rparr>"
proof -
  have "appends (store init) ls p = store init p"
    using appends_other [OF assms] .
  then have "appends (store init) ls p = None"
    by (simp add: init_def)
  then show ?thesis by (simp add: len_def getHandler_def)
qed

theorem unknown_identity_yields_null_witness:
  "getHandler ''B'' (init\<lparr>store := appends (store init) [sample ''A'' 0, sample ''A'' 1]\<rparr>) =
     \<lparr>code = 200, content = Json (JObj [(''locations'', JNull), (''phone'', JStr ''B'')])\<rparr>"
  using unknown_identity_yields_null [of "[sample ''A'' 0, sample ''A'' 1]" "''B''" init]
  by (simp add: sample_def)

text \<open>
  C8 as stated fails on a server that has stored nothing: the answer for \<open>B\<close> carries
  \<^verbatim>\<open>null\<close> where the claim has an empty list.
\<close>

theorem unknown_identity_not_empty_list_counterexample:
  "content (getHandler ''B'' init) = Json (JObj [(''locations'', JNull), (''phone'', JStr ''B'')])
   \<and> content (getHandler ''B'' init) \<noteq> Json (JObj [(''locations'', JArr []), (''phone'', JStr ''B'')])"
  by (simp add: getHandler_def init_def)

section \<open>The claims about ingest\<close>

text \<open>
  C7, as the code has it. \<^verbatim>\<open>reportHandler\<close> rejects a request, with status 400 and the
  text \<^verbatim>\<open>invalid json\<close>, exactly when the decoder returns an error, that is when the body
  does not begin with a JSON value that fits a \<^verbatim>\<open>Location\<close>; it then returns the state it
  was given, so the store and the subscriber set are unchanged. The decoder never reads
  past the first value: a body that begins with a fitting value is accepted with status
  200, and with the same effect, whatever bytes follow that value.
\<close>

theorem report_rejects_exactly_decode_errors:
  "(code (fst (reportHandler e \<lparr>Body = Decode b, Date = d\<rparr> s)) = 400) = (Decode b = None)
   \<and> (Decode b = None \<longrightarrow>
        reportHandler e \<lparr>Body = Decode b, Date = d\<rparr> s =
          (\<lparr>code = 400, content = Text (''invalid json'' @ [CHR 0x0A])\<rparr>, s))
   \<and> (b = Fits l rest \<longrightarrow>
        reportHandler e \<lparr>Body = Decode b, Date = d\<rparr> s =
          reportHandler e \<lparr>Body = Decode (Fits l []), Date = d\<rparr> s
        \<and> code (fst (reportHandler e \<lparr>Body = Decode b, Date = d\<rparr> s)) = 200)"
proof (cases b)
  case NoValue
  then show ?thesis by (simp add: reportHandler_def)
next
  case (Misfit rest')
  then show ?thesis by (simp add: reportHandler_def)
next
  case (Fits l' rest')
  then show ?thesis by (simp add: reportHandler_def Let_def)
qed

text \<open>
  An empty body is rejected and changes nothing; the body
  \<^verbatim>\<open>{"phone":"A","lat":1,"lon":20,"when":"t"}}} not json at all\<close> is served as the body
  \<^verbatim>\<open>{"phone":"A","lat":1,"lon":20,"when":"t"}\<close> is.
\<close>

theorem report_rejects_exactly_decode_errors_witness:
  "reportHandler \<lparr>now = clock, order = [1], werr = {}\<rparr> \<lparr>Body = Decode NoValue, Date = []\<rparr>
       (wsRegister 1 init)
     = (\<lparr>code = 400, content = Text (''invalid json'' @ [CHR 0x0A])\<rparr>, wsRegister 1 init)
   \<and> reportHandler \<lparr>now = clock, order = [1], werr = {}\<rparr>
        \<lparr>Body = Decode (Fits (sample ''A'' 1) ''}} not json at all''), Date = []\<rparr> (wsRegister 1 init)
     = reportHandler \<lparr>now = clock, order = [1], werr = {}\<rparr>
        \<lparr>Body = Decode (Fits (sample ''A'' 1) []), Date = []\<rparr> (wsRegister 1 init)
   \<and> code (fst (reportHandler \<lparr>now = clock, order = [1], werr = {}\<rparr>
        \<lparr>Body = Decode (Fits (sample ''A'' 1) ''}} not json at all''), Date = []\<rparr> (wsRegister 1 init)))
     = 200"
  using report_rejects_exactly_decode_errors
          [of "\<lparr>now = clock, order = [1], werr = {}\<rparr>" NoValue "[]" "wsRegister 1 init"
              "sample ''A'' 1" "[]"]
        report_rejects_exactly_decode_errors
          [of "\<lparr>now = clock, order = [1], werr = {}\<rparr>" "Fits (sample ''A'' 1) ''}} not json at all''"
              "[]" "wsRegister 1 init" "sample ''A'' 1" "''}} not json at all''"]
  by simp

text \<open>
  C7 as stated fails on the body \<^verbatim>\<open>{"phone":"A","lat":1,"lon":20,"when":"t"}}} not json at all\<close>,
  which does not parse: the decoder stops after the object, the answer has status 200, and
  the sample is stored and sent to the viewer.
\<close>

theorem unparseable_body_accepted_counterexample:
  "\<not> parses (Fits (sample ''A'' 1) ''}} not json at all'')
   \<and> code (fst (reportHandler \<lparr>now = clock, order = [1], werr = {}\<rparr>
        \<lparr>Body = Decode (Fits (sample ''A'' 1) ''}} not json at all''), Date = []\<rparr> (wsRegister 1 init))) = 200
   \<and> store (snd (reportHandler \<lparr>now = clock, order = [1], werr = {}\<rparr>
        \<lparr>Body = Decode (Fits (sample ''A'' 1) ''}} not json at all''), Date = []\<rparr> (wsRegister 1 init))) ''A''
       = Some [(sample ''A'' 1)\<lparr>When := clock\<rparr>]
   \<and> wire (snd (reportHandler \<lparr>now = clock, order = [1], werr = {}\<rparr>
        \<lparr>Body = Decode (Fits (sample ''A'' 1) ''}} not json at all''), Date = []\<rparr> (wsRegister 1 init))) 1
       = [(sample ''A'' 1)\<lparr>When := clock\<rparr>]"
  by (simp add: run_defs sample_def isSpace_def)

text \<open>
  C10. For every accepted report with identity \<open>p\<close>, the state after the handler is the
  result of \<^verbatim>\<open>broadcast\<close>, called with the sample \<open>loc\<close>, on the state whose store differs
  only at \<open>p\<close>; every other identity's sequence is unchanged; the sequence of \<open>p\<close> is the
  old one with \<open>loc\<close> appended at the end and then trimmed to its last 200; and the last
  sample stored for \<open>p\<close> is that same \<open>loc\<close>.
\<close>

theorem report_changes_one_history:
  assumes "Body r = Some l0" and "loc = l0\<lparr>When := (if Date r = [] then now e else Date r)\<rparr>"
  shows "snd (reportHandler e r s) =
           broadcast (order e) (werr e) loc
             (s\<lparr>store := (store s)(Phone l0 :=
                  Some (drop (Suc (length (elems (store s (Phone l0)))) - 200)
                          (elems (store s (Phone l0)) @ [loc])))\<rparr>)
       \<and> (\<forall>q. q \<noteq> Phone l0 \<longrightarrow> store (snd (reportHandler e r s)) q = store s q)
       \<and> store (snd (reportHandler e r s)) (Phone l0) =
           Some (drop (Suc (length (elems (store s (Phone l0)))) - 200)
                   (elems (store s (Phone l0)) @ [loc]))
       \<and> last (elems (store (snd (reportHandler e r s)) (Phone l0))) = loc"
proof -
  have p: "Phone loc = Phone l0" using assms(2) by simp
  have eff: "snd (reportHandler e r s) =
      broadcast (order e) (werr e) loc (s\<lparr>store := storeAppend loc (store s)\<rparr>)"
    using report_accepts [OF assms(1), of e s] assms(2) by simp
  have st: "store (snd (reportHandler e r s)) = storeAppend loc (store s)"
    using eff by (simp add: broadcast_store)
  have 1: "snd (reportHandler e r s) =
           broadcast (order e) (werr e) loc
             (s\<lparr>store := (store s)(Phone l0 :=
                  Some (drop (Suc (length (elems (store s (Phone l0)))) - 200)
                          (elems (store s (Phone l0)) @ [loc])))\<rparr>)"
    using eff storeAppend_eq [of loc "store s"] p by simp
  have 2: "\<forall>q. q \<noteq> Phone l0 \<longrightarrow> store (snd (reportHandler e r s)) q = store s q"
    using st p by (simp add: storeAppend_other)
  have 3: "store (snd (reportHandler e r s)) (Phone l0) =
           Some (drop (Suc (length (elems (store s (Phone l0)))) - 200)
                   (elems (store s (Phone l0)) @ [loc]))"
    using st p storeAppend_same [of loc "store s"] by simp
  have 4: "last (elems (store (snd (reportHandler e r s)) (Phone l0))) = loc"
    using st p storeAppend_last [of loc "store s"] by simp
  show ?thesis using 1 2 3 4 by blast
qed

text \<open>A report for \<open>A\<close> on a store that holds one sample each for \<open>A\<close> and \<open>B\<close>.\<close>

theorem report_changes_one_history_witness:
  "store (snd (reportHandler \<lparr>now = clock, order = [1], werr = {}\<rparr>
                 \<lparr>Body = Some (sample ''A'' 1), Date = []\<rparr>
                 (wsRegister 1 (init\<lparr>store :=
                    (store init)(''A'' \<mapsto> [sample ''A'' 0], ''B'' \<mapsto> [sample ''B'' 7])\<rparr>)))) ''B''
     = Some [sample ''B'' 7]
   \<and> store (snd (reportHandler \<lparr>now = clock, order = [1], werr = {}\<rparr>
                 \<lparr>Body = Some (sample ''A'' 1), Date = []\<rparr>
                 (wsRegister 1 (init\<lparr>store :=
                    (store init)(''A'' \<mapsto> [sample ''A'' 0], ''B'' \<mapsto> [sample ''B'' 7])\<rparr>)))) ''A''
     = Some [sample ''A'' 0, (sample ''A'' 1)\<lparr>When := clock\<rparr>]
   \<and> wire (snd (reportHandler \<lparr>now = clock, order = [1], werr = {}\<rparr>
                 \<lparr>Body = Some (sample ''A'' 1), Date = []\<rparr>
                 (wsRegister 1 (init\<lparr>store :=
                    (store init)(''A'' \<mapsto> [sample ''A'' 0], ''B'' \<mapsto> [sample ''B'' 7])\<rparr>)))) 1
     = [(sample ''A'' 1)\<lparr>When := clock\<rparr>]"
  using report_changes_one_history
    [of "\<lparr>Body = Some (sample ''A'' 1), Date = []\<rparr>" "sample ''A'' 1"
        "(sample ''A'' 1)\<lparr>When := clock\<rparr>" "\<lparr>now = clock, order = [1], werr = {}\<rparr>"
        "wsRegister 1 (init\<lparr>store :=
           (store init)(''A'' \<mapsto> [sample ''A'' 0], ''B'' \<mapsto> [sample ''B'' 7])\<rparr>)"]
  by (simp add: run_defs sample_def)

text \<open>
  C2, as the code has it. The handler never looks at the identity. For every request whose
  body parses and whose identity is the empty string, it does not reject the request: it
  answers 200 with \<^verbatim>\<open>{"status": "ok"}\<close>, appends the sample (with its timestamp set) to the
  history kept under the empty identity, trimmed to the last 200, and broadcasts it, so
  that every registered subscriber whose write succeeds is sent it.
\<close>

theorem empty_identity_is_accepted:
  assumes "Body r = Some l0" and "Phone l0 = []"
    and "loc = l0\<lparr>When := (if Date r = [] then now e else Date r)\<rparr>"
    and "range_order (order e) (clients s)"
  shows "fst (reportHandler e r s) = \<lparr>code = 200, content = Json (JObj [(''status'', JStr ''ok'')])\<rparr>
       \<and> store (snd (reportHandler e r s)) [] =
           Some (drop (Suc (length (elems (store s []))) - 200) (elems (store s []) @ [loc]))
       \<and> (\<forall>c. clients s c \<noteq> None \<and> c \<notin> werr e \<longrightarrow>
             wire (snd (reportHandler e r s)) c = wire s c @ [loc])"
proof -
  have p: "Phone loc = []" using assms(2,3) by simp
  have eff: "reportHandler e r s =
      (\<lparr>code = 200, content = Json (JObj [(''status'', JStr ''ok'')])\<rparr>,
       broadcast (order e) (werr e) loc (s\<lparr>store := storeAppend loc (store s)\<rparr>))"
    using report_accepts [OF assms(1), of e s] assms(3) by simp
  have 1: "fst (reportHandler e r s) = \<lparr>code = 200, content = Json (JObj [(''status'', JStr ''ok'')])\<rparr>"
    using eff by simp
  have 2: "store (snd (reportHandler e r s)) [] =
           Some (drop (Suc (length (elems (store s []))) - 200) (elems (store s []) @ [loc]))"
    using eff p storeAppend_same [of loc "store s"] by (simp add: broadcast_store)
  have 3: "\<forall>c. clients s c \<noteq> None \<and> c \<notin> werr e \<longrightarrow>
             wire (snd (reportHandler e r s)) c = wire s c @ [loc]"
    using eff assms(4) by (simp add: broadcast_delivers)
  show ?thesis using 1 2 3 by blast
qed

theorem empty_identity_is_accepted_witness:
  "fst (reportHandler \<lparr>now = clock, order = [1], werr = {}\<rparr> \<lparr>Body = Some anon, Date = []\<rparr>
          (wsRegister 1 init))
     = \<lparr>code = 200, content = Json (JObj [(''status'', JStr ''ok'')])\<rparr>
   \<and> store (snd (reportHandler \<lparr>now = clock, order = [1], werr = {}\<rparr> \<lparr>Body = Some anon, Date = []\<rparr>
          (wsRegister 1 init))) []
     = Some [anon\<lparr>When := clock\<rparr>]
   \<and> wire (snd (reportHandler \<lparr>now = clock, order = [1], werr = {}\<rparr> \<lparr>Body = Some anon, Date = []\<rparr>
          (wsRegister 1 init))) 1
     = [anon\<lparr>When := clock\<rparr>]"
  using empty_identity_is_accepted
    [of "\<lparr>Body = Some anon, Date = []\<rparr>" anon "anon\<lparr>When := clock\<rparr>"
        "\<lparr>now = clock, order = [1], werr = {}\<rparr>" "wsRegister 1 init"]
  by (simp add: run_defs anon_def)

text \<open>
  C2 as stated fails on the body \<^verbatim>\<open>{"phone": "", "lat": 1, "lon": 1}\<close> sent to a server
  with one viewer and an empty store: the answer has status 200, and the store is no longer
  the one before the request.
\<close>

theorem empty_identity_not_rejected_counterexample:
  "Phone anon = []
   \<and> code (fst (reportHandler \<lparr>now = clock, order = [1], werr = {}\<rparr> \<lparr>Body = Some anon, Date = []\<rparr>
          (wsRegister 1 init))) = 200
   \<and> store (snd (reportHandler \<lparr>now = clock, order = [1], werr = {}\<rparr> \<lparr>Body = Some anon, Date = []\<rparr>
          (wsRegister 1 init)))
     \<noteq> store (wsRegister 1 init)"
proof -
  have "store (snd (reportHandler \<lparr>now = clock, order = [1], werr = {}\<rparr> \<lparr>Body = Some anon, Date = []\<rparr>
          (wsRegister 1 init))) [] \<noteq> store (wsRegister 1 init) []"
    by (simp add: run_defs anon_def)
  then have "store (snd (reportHandler \<lparr>now = clock, order = [1], werr = {}\<rparr> \<lparr>Body = Some anon, Date = []\<rparr>
          (wsRegister 1 init))) \<noteq> store (wsRegister 1 init)"
    by metis
  then show ?thesis by (simp add: reportHandler_def Let_def anon_def)
qed

text \<open>
  C3, as the code has it. For every accepted request the timestamp of the stored sample,
  and of the sample sent to every registered subscriber whose write succeeds, is the value
  of the request's \<^verbatim>\<open>Date\<close> header when that is not empty, and the current instant
  otherwise. The \<^verbatim>\<open>when\<close> field of the body is overwritten before it is read.
\<close>

theorem timestamp_from_date_header:
  assumes "Body r = Some l0" and "range_order (order e) (clients s)"
  shows "When (last (elems (store (snd (reportHandler e r s)) (Phone l0)))) =
           (if Date r = [] then now e else Date r)
       \<and> (\<forall>c. clients s c \<noteq> None \<and> c \<notin> werr e \<longrightarrow>
             When (last (wire (snd (reportHandler e r s)) c)) = (if Date r = [] then now e else Date r))"
proof -
  define loc where "loc = l0\<lparr>When := (if Date r = [] then now e else Date r)\<rparr>"
  have p: "Phone loc = Phone l0" and w: "When loc = (if Date r = [] then now e else Date r)"
    by (simp_all add: loc_def)
  have eff: "snd (reportHandler e r s) =
      broadcast (order e) (werr e) loc (s\<lparr>store := storeAppend loc (store s)\<rparr>)"
    using report_accepts [OF assms(1), of e s] by (simp add: loc_def)
  have 1: "last (elems (store (snd (reportHandler e r s)) (Phone l0))) = loc"
    using eff p storeAppend_last [of loc "store s"] by (simp add: broadcast_store)
  have 2: "\<forall>c. clients s c \<noteq> None \<and> c \<notin> werr e \<longrightarrow> last (wire (snd (reportHandler e r s)) c) = loc"
    using eff assms(2) by (simp add: broadcast_delivers)
  show ?thesis using 1 2 w by metis
qed

text \<open>A body that carries \<^verbatim>\<open>when = t1\<close>, in a request with a \<^verbatim>\<open>Date\<close> header.\<close>

theorem timestamp_from_date_header_witness:
  "When (last (elems (store (snd (reportHandler \<lparr>now = clock, order = [1], werr = {}\<rparr>
          \<lparr>Body = Some dated, Date = ''Sun, 01 Nov 2026 10:00:00 GMT''\<rparr> (wsRegister 1 init))) ''A'')))
     = ''Sun, 01 Nov 2026 10:00:00 GMT''
   \<and> When (last (wire (snd (reportHandler \<lparr>now = clock, order = [1], werr = {}\<rparr>
          \<lparr>Body = Some dated, Date = ''Sun, 01 Nov 2026 10:00:00 GMT''\<rparr> (wsRegister 1 init))) 1))
     = ''Sun, 01 Nov 2026 10:00:00 GMT''"
  using timestamp_from_date_header
    [of "\<lparr>Body = Some dated, Date = ''Sun, 01 Nov 2026 10:00:00 GMT''\<rparr>" dated
        "\<lparr>now = clock, order = [1], werr = {}\<rparr>" "wsRegister 1 init"]
  by (simp add: run_defs dated_def)

text \<open>
  C3 as stated fails on a body that carries \<^verbatim>\<open>when = t1\<close> in a request with no \<^verbatim>\<open>Date\<close>
  header: the sample stored and the sample sent to the viewer carry the server's clock.
\<close>

theorem body_when_ignored_counterexample:
  "When dated = ''t1''
   \<and> When (last (elems (store (snd (reportHandler \<lparr>now = clock, order = [1], werr = {}\<rparr>
          \<lparr>Body = Some dated, Date = []\<rparr> (wsRegister 1 init))) ''A''))) = clock
   \<and> When (last (wire (snd (reportHandler \<lparr>now = clock, order = [1], werr = {}\<rparr>
          \<lparr>Body = Some dated, Date = []\<rparr> (wsRegister 1 init))) 1)) = clock
   \<and> clock \<noteq> ''t1''"
  by (simp add: run_defs dated_def clock_def)

text \<open>
  C6, as the code has it. The handler makes no range check. Every request whose body
  parses is accepted with status 200, and the sample stored, and sent to every registered
  subscriber whose write succeeds, has the latitude and the longitude of the body,
  whatever their values.
\<close>

theorem coordinates_stored_as_decoded:
  assumes "Body r = Some l0" and "range_order (order e) (clients s)"
  shows "code (fst (reportHandler e r s)) = 200
       \<and> Lat (last (elems (store (snd (reportHandler e r s)) (Phone l0)))) = Lat l0
       \<and> Lon (last (elems (store (snd (reportHandler e r s)) (Phone l0)))) = Lon l0
       \<and> (\<forall>c. clients s c \<noteq> None \<and> c \<notin> werr e \<longrightarrow>
             Lat (last (wire (snd (reportHandler e r s)) c)) = Lat l0
           \<and> Lon (last (wire (snd (reportHandler e r s)) c)) = Lon l0)"
proof -
  define loc where "loc = l0\<lparr>When := (if Date r = [] then now e else Date r)\<rparr>"
  have p: "Phone loc = Phone l0" and la: "Lat loc = Lat l0" and lo: "Lon loc = Lon l0"
    by (simp_all add: loc_def)
  have eff: "reportHandler e r s =
      (\<lparr>code = 200, content = Json (JObj [(''status'', JStr ''ok'')])\<rparr>,
       broadcast (order e) (werr e) loc (s\<lparr>store := storeAppend loc (store s)\<rparr>))"
    using report_accepts [OF assms(1), of e s] by (simp add: loc_def)
  have 0: "code (fst (reportHandler e r s)) = 200" using eff by simp
  have 1: "last (elems (store (snd (reportHandler e r s)) (Phone l0))) = loc"
    using eff p storeAppend_last [of loc "store s"] by (simp add: broadcast_store)
  have 2: "\<forall>c. clients s c \<noteq> None \<and> c \<notin> werr e \<longrightarrow> last (wire (snd (reportHandler e r s)) c) = loc"
    using eff assms(2) by (simp add: broadcast_delivers)
  show ?thesis using 0 1 2 la lo by metis
qed

theorem coordinates_stored_as_decoded_witness:
  "code (fst (reportHandler \<lparr>now = clock, order = [1], werr = {}\<rparr> \<lparr>Body = Some (sample ''A'' 10), Date = []\<rparr>
          (wsRegister 1 init))) = 200
   \<and> Lat (last (elems (store (snd (reportHandler \<lparr>now = clock, order = [1], werr = {}\<rparr>
          \<lparr>Body = Some (sample ''A'' 10), Date = []\<rparr> (wsRegister 1 init))) ''A''))) = 10
   \<and> Lon (last (wire (snd (reportHandler \<lparr>now = clock, order = [1], werr = {}\<rparr>
          \<lparr>Body = Some (sample ''A'' 10), Date = []\<rparr> (wsRegister 1 init))) 1)) = 20"
  using coordinates_stored_as_decoded
    [of "\<lparr>Body = Some (sample ''A'' 10), Date = []\<rparr>" "sample ''A'' 10"
        "\<lparr>now = clock, order = [1], werr = {}\<rparr>" "wsRegister 1 init"]
  by (simp add: run_defs sample_def)

text \<open>
  C6 as stated fails on a body with latitude 91 and longitude 181: it is accepted, stored
  and sent to the viewer as it is.
\<close>

theorem out_of_range_accepted_counterexample:
  "code (fst (reportHandler \<lparr>now = clock, order = [1], werr = {}\<rparr> \<lparr>Body = Some far, Date = []\<rparr>
          (wsRegister 1 init))) = 200
   \<and> \<not> Lat (last (elems (store (snd (reportHandler \<lparr>now = clock, order = [1], werr = {}\<rparr>
          \<lparr>Body = Some far, Date = []\<rparr> (wsRegister 1 init))) ''A''))) \<le> 90
   \<and> \<not> Lon (last (elems (store (snd (reportHandler \<lparr>now = clock, order = [1], werr = {}\<rparr>
          \<lparr>Body = Some far, Date = []\<rparr> (wsRegister 1 init))) ''A''))) \<le> 180
   \<and> \<not> Lat (last (wire (snd (reportHandler \<lparr>now = clock, order = [1], werr = {}\<rparr>
          \<lparr>Body = Some far, Date = []\<rparr> (wsRegister 1 init))) 1)) \<le> 90
   \<and> \<not> Lon (last (wire (snd (reportHandler \<lparr>now = clock, order = [1], werr = {}\<rparr>
          \<lparr>Body = Some far, Date = []\<rparr> (wsRegister 1 init))) 1)) \<le> 180"
  by (simp add: run_defs far_def)

section \<open>The claims about broadcast\<close>

text \<open>
  C4. For every subscriber that is registered and stays connected through a run of
  publishes, connects and disconnects (no write to it fails, its read loop does not end),
  what has been written to its connection after the run is what had been written before,
  followed by the published samples, each once, in the order of the calls of
  \<^verbatim>\<open>broadcast\<close>; and it is still registered.
\<close>

theorem subscriber_receives_publish_order:
  assumes "clients s c \<noteq> None" and "ranges_ok s evs" and "\<forall>ev\<in>set evs. stays c ev"
  shows "wire (run s evs) c = wire s c @ published evs \<and> clients (run s evs) c \<noteq> None"
  using assms
proof (induction evs arbitrary: s)
  case Nil
  then show ?case by simp
next
  case (Cons ev evs)
  have st: "stays c ev" using Cons.prems(3) by simp
  have one: "ranges_ok s [ev]" and rest: "ranges_ok (step ev s) evs"
    using Cons.prems(2) by (cases ev; simp)+
  have reg: "clients (step ev s) c \<noteq> None"
    using step_keeps_subscriber [OF Cons.prems(1) st] .
  have w: "wire (step ev s) c = wire s c @ published [ev]"
    using step_wire [OF Cons.prems(1) st one] .
  have pub: "published (ev # evs) = published [ev] @ published evs"
    by (cases ev) simp_all
  have "wire (run (step ev s) evs) c = wire (step ev s) c @ published evs
        \<and> clients (run (step ev s) evs) c \<noteq> None"
    using Cons.IH [OF reg rest] Cons.prems(3) by simp
  then show ?case using w pub by simp
qed

text \<open>
  Viewer 1 through four publishes, ranged over in different orders, while viewer 2 fails
  on the second one and viewer 3 comes and goes.
\<close>

theorem subscriber_receives_publish_order_witness:
  "wire (run (wsRegister 1 (wsRegister 2 init))
          [Publish [1, 2] {} (sample ''A'' 0), Publish [2, 1] {2} (sample ''B'' 1), Connect 3,
           Publish [3, 1] {} (sample ''A'' 2), Disconnect 3, Publish [1] {} (sample ''A'' 3)]) 1
     = [sample ''A'' 0, sample ''B'' 1, sample ''A'' 2, sample ''A'' 3]"
  using subscriber_receives_publish_order [of "wsRegister 1 (wsRegister 2 init)" 1
      "[Publish [1, 2] {} (sample ''A'' 0), Publish [2, 1] {2} (sample ''B'' 1), Connect 3,
        Publish [3, 1] {} (sample ''A'' 2), Disconnect 3, Publish [1] {} (sample ''A'' 3)]"]
  by (simp add: run_defs)

text \<open>
  C5. For every call of \<^verbatim>\<open>broadcast\<close>, in whatever order the range visits the subscribers:
  the subscribers left in the set are exactly those registered before whose write did not
  fail; every one of these has been sent the sample; a connection whose write failed has
  been sent nothing and, when it was registered, is closed; and the handler that made the
  call still answers its reporter 200 with \<^verbatim>\<open>{"status": "ok"}\<close>.
\<close>

theorem failed_send_drops_only_that_subscriber:
  assumes "range_order cs (clients s)"
  shows "clients (broadcast cs w loc s) = (\<lambda>c. if c \<in> w then None else clients s c)
       \<and> (\<forall>c. clients s c \<noteq> None \<and> c \<notin> w \<longrightarrow> wire (broadcast cs w loc s) c = wire s c @ [loc])
       \<and> (\<forall>c. c \<in> w \<longrightarrow> wire (broadcast cs w loc s) c = wire s c)
       \<and> closed (broadcast cs w loc s) = closed s \<union> (dom (clients s) \<inter> w)
       \<and> fst (reportHandler \<lparr>now = t, order = cs, werr = w\<rparr> \<lparr>Body = Some l0, Date = d\<rparr> s) =
           \<lparr>code = 200, content = Json (JObj [(''status'', JStr ''ok'')])\<rparr>"
proof -
  have d: "distinct cs" and k: "set cs = dom (clients s)"
    using assms by (simp_all add: range_order_def)
  have 1: "clients (broadcast cs w loc s) = (\<lambda>c. if c \<in> w then None else clients s c)"
  proof
    fix c
    show "clients (broadcast cs w loc s) c = (if c \<in> w then None else clients s c)"
      using k by (auto simp: broadcast_def broadcast_loop_clients)
  qed
  have 2: "\<forall>c. clients s c \<noteq> None \<and> c \<notin> w \<longrightarrow> wire (broadcast cs w loc s) c = wire s c @ [loc]"
    using k by (auto simp: broadcast_def broadcast_loop_wire [OF d])
  have 3: "\<forall>c. c \<in> w \<longrightarrow> wire (broadcast cs w loc s) c = wire s c"
    by (simp add: broadcast_def broadcast_loop_wire [OF d])
  have 4: "closed (broadcast cs w loc s) = closed s \<union> (dom (clients s) \<inter> w)"
    using k by (auto simp: broadcast_def broadcast_loop_closed)
  have 5: "fst (reportHandler \<lparr>now = t, order = cs, werr = w\<rparr> \<lparr>Body = Some l0, Date = d\<rparr> s) =
           \<lparr>code = 200, content = Json (JObj [(''status'', JStr ''ok'')])\<rparr>"
    by (simp add: reportHandler_def Let_def)
  show ?thesis using 1 2 3 4 5 by blast
qed

text \<open>Three viewers; the write to viewer 3, the second one the range visits, fails.\<close>

theorem failed_send_drops_only_that_subscriber_witness:
  "dom (clients (broadcast [2, 3, 1] {3} (sample ''A'' 0) (wsRegister 1 (wsRegister 2 (wsRegister 3 init)))))
     = {1, 2}
   \<and> wire (broadcast [2, 3, 1] {3} (sample ''A'' 0) (wsRegister 1 (wsRegister 2 (wsRegister 3 init)))) 1
     = [sample ''A'' 0]
   \<and> wire (broadcast [2, 3, 1] {3} (sample ''A'' 0) (wsRegister 1 (wsRegister 2 (wsRegister 3 init)))) 2
     = [sample ''A'' 0]
   \<and> wire (broadcast [2, 3, 1] {3} (sample ''A'' 0) (wsRegister 1 (wsRegister 2 (wsRegister 3 init)))) 3
     = []
   \<and> closed (broadcast [2, 3, 1] {3} (sample ''A'' 0) (wsRegister 1 (wsRegister 2 (wsRegister 3 init))))
     = {3}"
  using failed_send_drops_only_that_subscriber
    [of "[2, 3, 1]" "wsRegister 1 (wsRegister 2 (wsRegister 3 init))" "{3}" "sample ''A'' 0"]
  by (auto simp: run_defs split: if_splits)

text \<open>
  C9, as the code has it. \<^verbatim>\<open>broadcast\<close> writes to the subscribers one after the other
  inside the range, holding \<^verbatim>\<open>clientsMu\<close>, in whatever order the range visits them. When
  no write stalls, the call returns: every subscriber whose write fails is removed at that
  very call, and every other registered one has been sent the sample. When the write to a
  subscriber stalls, the call blocks there: the subscribers visited before it have been
  served, but the stalled one and every subscriber the range had not reached yet are sent
  nothing and all stay registered, for as long as that write does not return.
\<close>

theorem broadcast_blocks_at_stalled_subscriber:
  "(range_order cs (clients s) \<and> set cs \<inter> stalled = {} \<longrightarrow>
      broadcast_blocking cs w stalled loc s = Returned (broadcast cs w loc s)
      \<and> clients (broadcast cs w loc s) = (\<lambda>c. if c \<in> w then None else clients s c)
      \<and> (\<forall>d. clients s d \<noteq> None \<and> d \<notin> w \<longrightarrow> wire (broadcast cs w loc s) d = wire s d @ [loc]))
   \<and> (range_order (pre @ c # post) (clients s) \<and> set pre \<inter> stalled = {} \<and> c \<in> stalled \<longrightarrow>
      broadcast_blocking (pre @ c # post) w stalled loc s = Blocked (broadcast pre w loc s)
      \<and> (\<forall>d\<in>set pre. d \<notin> w \<longrightarrow> wire (broadcast pre w loc s) d = wire s d @ [loc])
      \<and> (\<forall>d\<in>set (c # post). wire (broadcast pre w loc s) d = wire s d
                              \<and> clients (broadcast pre w loc s) d = clients s d
                              \<and> clients s d \<noteq> None))"
proof (intro conjI impI)
  assume a: "range_order cs (clients s) \<and> set cs \<inter> stalled = {}"
  then have d: "distinct cs" and k: "set cs = dom (clients s)"
    by (simp_all add: range_order_def)
  show "broadcast_blocking cs w stalled loc s = Returned (broadcast cs w loc s)"
    using a by (simp add: broadcast_blocking_def broadcast_def blocking_loop_none_stalled)
  show "clients (broadcast cs w loc s) = (\<lambda>c. if c \<in> w then None else clients s c)"
  proof
    fix x
    show "clients (broadcast cs w loc s) x = (if x \<in> w then None else clients s x)"
      using k by (auto simp: broadcast_def broadcast_loop_clients)
  qed
  show "\<forall>d. clients s d \<noteq> None \<and> d \<notin> w \<longrightarrow> wire (broadcast cs w loc s) d = wire s d @ [loc]"
    using k by (auto simp: broadcast_def broadcast_loop_wire [OF d])
next
  assume b: "range_order (pre @ c # post) (clients s) \<and> set pre \<inter> stalled = {} \<and> c \<in> stalled"
  then have d: "distinct (pre @ c # post)" and k: "set (pre @ c # post) = dom (clients s)"
    by (simp_all add: range_order_def)
  have dp: "distinct pre" using d by simp
  have reg: "clients s c \<noteq> None" using k by auto
  show "broadcast_blocking (pre @ c # post) w stalled loc s = Blocked (broadcast pre w loc s)"
    using blocking_loop_first_stalled [OF d _ _ reg, of stalled w loc] b
    by (simp add: broadcast_blocking_def broadcast_def)
  show "\<forall>d\<in>set pre. d \<notin> w \<longrightarrow> wire (broadcast pre w loc s) d = wire s d @ [loc]"
    using k by (auto simp: broadcast_def broadcast_loop_wire [OF dp])
  show "\<forall>d\<in>set (c # post). wire (broadcast pre w loc s) d = wire s d
                              \<and> clients (broadcast pre w loc s) d = clients s d
                              \<and> clients s d \<noteq> None"
    using k d by (auto simp: broadcast_def broadcast_loop_wire [OF dp] broadcast_loop_clients)
qed

text \<open>
  Two viewers, the write to viewer 2 fails: the call returns and only viewer 1 is left.
  Three viewers ranged over as 1, 2, 3, the write to viewer 2 stalls: viewer 1 has been sent
  the sample, viewer 3 has not.
\<close>

theorem broadcast_blocks_at_stalled_subscriber_witness:
  "broadcast_blocking [1, 2] {2} {} (sample ''A'' 0) (wsRegister 1 (wsRegister 2 init))
     = Returned (broadcast [1, 2] {2} (sample ''A'' 0) (wsRegister 1 (wsRegister 2 init)))
   \<and> dom (clients (broadcast [1, 2] {2} (sample ''A'' 0) (wsRegister 1 (wsRegister 2 init)))) = {1}
   \<and> broadcast_blocking ([1] @ 2 # [3]) {} {2} (sample ''A'' 0)
        (wsRegister 1 (wsRegister 2 (wsRegister 3 init)))
     = Blocked (broadcast [1] {} (sample ''A'' 0) (wsRegister 1 (wsRegister 2 (wsRegister 3 init))))
   \<and> wire (broadcast [1] {} (sample ''A'' 0) (wsRegister 1 (wsRegister 2 (wsRegister 3 init)))) 1
     = [sample ''A'' 0]
   \<and> wire (broadcast [1] {} (sample ''A'' 0) (wsRegister 1 (wsRegister 2 (wsRegister 3 init)))) 3
     = []"
  using broadcast_blocks_at_stalled_subscriber
          [of "[1, 2]" "wsRegister 1 (wsRegister 2 init)" "{}" "{2}" "sample ''A'' 0" "[1]" 2 "[3]"]
        broadcast_blocks_at_stalled_subscriber
          [of "[1]" "wsRegister 1 (wsRegister 2 (wsRegister 3 init))" "{2}" "{}" "sample ''A'' 0"
              "[1]" 2 "[3]"]
  by (auto simp: run_defs split: if_splits)

text \<open>
  C9 as stated fails with two viewers ranged over as 2, 1 when the write to viewer 2
  stalls and nothing is wrong with viewer 1: the call does not return, viewer 1 has been
  sent nothing, and viewer 2 is still registered.
\<close>

theorem stalled_subscriber_delays_others_counterexample:
  "range_order [2, 1] (clients (wsRegister 1 (wsRegister 2 init)))
   \<and> broadcast_blocking [2, 1] {} {2} (sample ''A'' 0) (wsRegister 1 (wsRegister 2 init))
       = Blocked (wsRegister 1 (wsRegister 2 init))
   \<and> wire (wsRegister 1 (wsRegister 2 init)) 1 = []
   \<and> clients (wsRegister 1 (wsRegister 2 init)) 2 = Some True"
  by (auto simp: run_defs broadcast_blocking_def)

end
